theory Spec2Isabelle
  imports Complex_Main
begin

section \<open>Numbers, points and small matrices\<close>

text \<open>
  The program computes with \<^verbatim>\<open>double\<close>. The model computes with \<^typ>\<open>real\<close>: it follows
  the control flow and the algebra of the source and says nothing about rounding. A
  quotient whose divisor is zero has no real value (the machine yields an infinity or a
  NaN there); the model stops at such a quotient with the outcome \<open>DivisionByZero\<close>.

  \<^verbatim>\<open>cv::Point2d\<close> and \<^verbatim>\<open>cv::Point3d\<close> are tuples. A \<^verbatim>\<open>cv::Mat\<close> whose shape is fixed
  where it is built (a 3x1 or 4x1 column, the 3x3 rotation, the 3x4 pose matrix) is a
  tuple of its entries, a matrix being the tuple of its rows.
\<close>

type_synonym Point2d = "real \<times> real"
type_synonym Point3d = "real \<times> real \<times> real"
type_synonym vec3 = "real \<times> real \<times> real"
type_synonym vec4 = "real \<times> real \<times> real \<times> real"
type_synonym mat33 = "vec3 \<times> vec3 \<times> vec3"
type_synonym mat34 = "vec4 \<times> vec4 \<times> vec4"

fun add3 :: "vec3 \<Rightarrow> vec3 \<Rightarrow> vec3" where
  "add3 (a1, a2, a3) (b1, b2, b3) = (a1 + b1, a2 + b2, a3 + b3)"

fun sub3 :: "vec3 \<Rightarrow> vec3 \<Rightarrow> vec3" where
  "sub3 (a1, a2, a3) (b1, b2, b3) = (a1 - b1, a2 - b2, a3 - b3)"

fun scale3 :: "real \<Rightarrow> vec3 \<Rightarrow> vec3" where
  "scale3 k (a1, a2, a3) = (k * a1, k * a2, k * a3)"

fun neg3 :: "vec3 \<Rightarrow> vec3" where
  "neg3 (a1, a2, a3) = (- a1, - a2, - a3)"

fun cross3 :: "vec3 \<Rightarrow> vec3 \<Rightarrow> vec3" where
  "cross3 (a1, a2, a3) (b1, b2, b3) =
     (a2 * b3 - a3 * b2, a3 * b1 - a1 * b3, a1 * b2 - a2 * b1)"

fun dot3 :: "vec3 \<Rightarrow> vec3 \<Rightarrow> real" where
  "dot3 (a1, a2, a3) (b1, b2, b3) = a1 * b1 + a2 * b2 + a3 * b3"

fun dot4 :: "vec4 \<Rightarrow> vec4 \<Rightarrow> real" where
  "dot4 (a1, a2, a3, a4) (b1, b2, b3, b4) = a1 * b1 + a2 * b2 + a3 * b3 + a4 * b4"

fun mul33 :: "mat33 \<Rightarrow> vec3 \<Rightarrow> vec3" where
  "mul33 (r0, r1, r2) x = (dot3 r0 x, dot3 r1 x, dot3 r2 x)"

fun mul34 :: "mat34 \<Rightarrow> vec4 \<Rightarrow> vec3" where
  "mul34 (r0, r1, r2) x = (dot4 r0 x, dot4 r1 x, dot4 r2 x)"

fun third :: "vec3 \<Rightarrow> real" where
  "third (a1, a2, a3) = a3"

fun sub2 :: "Point2d \<Rightarrow> Point2d \<Rightarrow> Point2d" where
  "sub2 (a1, a2) (b1, b2) = (a1 - b1, a2 - b2)"

text \<open>\<^verbatim>\<open>cv::norm\<close> of a point: its Euclidean length.\<close>

fun norm2 :: "Point2d \<Rightarrow> real" where
  "norm2 (a1, a2) = sqrt (a1 * a1 + a2 * a2)"

text \<open>
  Modelled from the spec: \<^verbatim>\<open>imagePointToHomogeneous\<close> and \<^verbatim>\<open>worldPointToHomogeneous\<close>
  of \<^verbatim>\<open>util.hpp\<close>, which is absent. The spec's \<open>homogeneous(c)\<close> is the point with
  weight one appended and \<open>homogeneous(v, weight=0)\<close> a direction with weight zero.
\<close>

fun imagePointToHomogeneous :: "Point2d \<Rightarrow> vec3" where
  "imagePointToHomogeneous (x, y) = (x, y, 1)"

fun worldPointToHomogeneous :: "Point3d \<Rightarrow> real \<Rightarrow> vec4" where
  "worldPointToHomogeneous (x, y, z) w = (x, y, z, w)"

section \<open>Cameras and the functions the program takes from elsewhere\<close>

record CameraProperties =
  matrix :: mat33
  distort_w :: real

record CameraPose =
  rotation :: mat33
  center :: Point3d

record Camera =
  intrinsics :: CameraProperties
  extrinsics :: CameraPose

record OtherView =
  index :: int
  camera :: Camera

text \<open>
  The functions whose code is not part of \<^verbatim>\<open>find_multiview_track.cpp\<close> are parameters
  of the model, gathered in one record: the helpers of \<^verbatim>\<open>util.hpp\<close>,
  \<^verbatim>\<open>distortion.hpp\<close> and \<^verbatim>\<open>camera.hpp\<close>, the matrix inverse of OpenCV and the
  bisection of Boost. \<open>bisect f lo hi\<close> is \<open>None\<close> where Boost raises its evaluation
  error (arguments in the wrong order, no change of sign).
\<close>

record Externals =
  mat_inv :: "mat33 \<Rightarrow> mat33"
  imagePointFromHomogeneous :: "vec3 \<Rightarrow> Point2d"
  isUndistortable :: "Point2d \<Rightarrow> real \<Rightarrow> bool"
  undistort :: "Point2d \<Rightarrow> real \<Rightarrow> Point2d"
  distortPointAtInfinity :: "Point2d \<Rightarrow> real \<Rightarrow> Point2d"
  distortAndUncalibrate :: "CameraProperties \<Rightarrow> Point2d \<Rightarrow> Point2d"
  uncalibrate :: "CameraProperties \<Rightarrow> Point2d \<Rightarrow> Point2d"
  poseMatrix :: "CameraPose \<Rightarrow> mat34"
  bisect :: "(real \<Rightarrow> real) \<Rightarrow> real \<Rightarrow> real \<Rightarrow> (real \<times> real) option"

datatype fault = DivisionByZero | CheckFailed string | EvaluationError

section \<open>Tracks\<close>

text \<open>
  Modelled from the spec: \<^verbatim>\<open>Track\<close> of \<^verbatim>\<open>track.hpp\<close>, which is absent. A track is an
  ordered mapping from frame index to point with unique keys: here the list of its
  entries in the order the container iterates them, by increasing frame index.
  \<open>insert_entry\<close> is the insertion an \<^verbatim>\<open>std::inserter\<close> performs on such a container:
  an entry whose key is already present is not inserted.
\<close>

type_synonym 'a Track = "(int \<times> 'a) list"

fun insert_entry :: "int \<times> 'a \<Rightarrow> 'a Track \<Rightarrow> 'a Track" where
  "insert_entry p [] = [p]"
| "insert_entry p (q # qs) =
     (if fst p < fst q then p # q # qs
      else if fst p = fst q then q # qs
      else q # insert_entry p qs)"

definition transform_into :: "(int \<times> 'a \<Rightarrow> int \<times> 'b) \<Rightarrow> 'a Track \<Rightarrow> 'b Track" where
  "transform_into f t = foldl (\<lambda>out p. insert_entry (f p) out) [] t"

definition remove_copy_if_into :: "(int \<times> 'a \<Rightarrow> bool) \<Rightarrow> 'a Track \<Rightarrow> 'a Track" where
  "remove_copy_if_into pred t =
     foldl (\<lambda>out p. if pred p then out else insert_entry p out) [] t"

definition is_track :: "'a Track \<Rightarrow> bool" where
  "is_track t = sorted_wrt (<) (map fst t)"

section \<open>Calibrating and undistorting a track\<close>

definition calibrateIndexedPoint :: "Externals \<Rightarrow> int \<times> Point2d \<Rightarrow> mat33 \<Rightarrow> int \<times> Point2d" where
  "calibrateIndexedPoint E point K_inv =
     (let x = snd point;
          X = imagePointToHomogeneous x;
          Y = mul33 K_inv X;
          y = imagePointFromHomogeneous E Y
      in (fst point, y))"

definition indexedPointIsNotUndistortable :: "Externals \<Rightarrow> int \<times> Point2d \<Rightarrow> real \<Rightarrow> bool" where
  "indexedPointIsNotUndistortable E point w = (\<not> isUndistortable E (snd point) w)"

definition undistortIndexedPoint :: "Externals \<Rightarrow> int \<times> Point2d \<Rightarrow> real \<Rightarrow> int \<times> Point2d" where
  "undistortIndexedPoint E point w = (fst point, undistort E (snd point) w)"

definition calibrateAndUndistortTrack ::
  "Externals \<Rightarrow> Point2d Track \<Rightarrow> CameraProperties \<Rightarrow> Point2d Track" where
  "calibrateAndUndistortTrack E track intr =
     (let K_inv = mat_inv E (matrix intr);
          calibrated = transform_into (\<lambda>p. calibrateIndexedPoint E p K_inv) track;
          valid = remove_copy_if_into
                    (\<lambda>p. indexedPointIsNotUndistortable E p (distort_w intr)) calibrated;
          undistorted = transform_into (\<lambda>p. undistortIndexedPoint E p (distort_w intr)) valid
      in undistorted)"

section \<open>The extent of a ray in another view\<close>

definition errorInDistanceFromPoint ::
  "Externals \<Rightarrow> Point2d \<Rightarrow> real \<Rightarrow> vec3 \<Rightarrow> vec3 \<Rightarrow> real \<Rightarrow> CameraProperties \<Rightarrow> real" where
  "errorInDistanceFromPoint E y lambda A B delta intr =
     (let X = add3 A (scale3 lambda B);
          x = imagePointFromHomogeneous E X;
          x = distortAndUncalibrate E intr x
      in norm2 (sub2 x y) - delta)"

text \<open>
  The direction of the ray (lines 110 to 116 of the source). The cross product \<open>V\<close> is
  a 3x1 \<^verbatim>\<open>cv::Mat\<close>, and the source reads it with \<^verbatim>\<open>V.at<double>(0, j)\<close> for
  \<open>j = 0, 1, 2\<close>: row 0, column \<open>j\<close> of a matrix with one column. OpenCV checks the
  range of \<^verbatim>\<open>at\<close> in debug builds only; otherwise it reads the entry \<open>j\<close> places after the
  start of row 0 in the buffer, kept row after row. \<open>V\<close> is therefore a buffer with its
  shape, and \<open>Mat_at\<close> is that unchecked read.
\<close>

record Mat =
  rows :: nat
  cols :: nat
  data :: "real list"

definition Mat_at :: "Mat \<Rightarrow> nat \<Rightarrow> nat \<Rightarrow> real" where
  "Mat_at M i j = data M ! (i * cols M + j)"

fun column3 :: "vec3 \<Rightarrow> Mat" where
  "column3 (a1, a2, a3) = \<lparr>rows = 3, cols = 1, data = [a1, a2, a3]\<rparr>"

definition findExtentOfRay_direction :: "Point2d \<Rightarrow> CameraPose \<Rightarrow> Point3d" where
  "findExtentOfRay_direction w pose =
     (case rotation pose of (R0, R1, R2) \<Rightarrow>
        let A0 = sub3 R0 (scale3 (fst w) R2);
            A1 = sub3 R1 (scale3 (snd w) R2);
            V = column3 (neg3 (cross3 A0 A1))
        in (Mat_at V 0 0, Mat_at V 0 1, Mat_at V 0 2))"

text \<open>The homogeneous coordinates \<open>A\<close> and \<open>B\<close> in the other view (lines 124 to 129).\<close>

definition findExtentOfRay_AB :: "Externals \<Rightarrow> Point3d \<Rightarrow> Point3d \<Rightarrow> Camera \<Rightarrow> vec3 \<times> vec3" where
  "findExtentOfRay_AB E c v other =
     (let P = poseMatrix E (extrinsics other);
          C = worldPointToHomogeneous c 1;
          V = worldPointToHomogeneous v 0;
          A = mul34 P C;
          B = mul34 P V
      in (A, B))"

definition checked_div :: "real \<Rightarrow> real \<Rightarrow> fault + real" where
  "checked_div a b = (if b = 0 then Inl DivisionByZero else Inr (a / b))"

text \<open>The lower end of the search (lines 152 to 160).\<close>

definition findExtentOfRay_lambda_min :: "real \<Rightarrow> real \<Rightarrow> fault + real" where
  "findExtentOfRay_lambda_min a3 b3 = (if a3 < 0 then Inr 0 else checked_div (- a3) b3)"

text \<open>
  The doubling loop of lines 171 to 180: \<open>lambda\<close> is doubled once more after the
  residual has been found negative. The loop has no bound, so the model is a partial
  function: \<open>None\<close> is the run that never leaves the loop.
\<close>

partial_function (option) findExtentOfRay_double :: "(real \<Rightarrow> real) \<Rightarrow> real \<Rightarrow> real option" where
  "findExtentOfRay_double err lambda =
     (if err lambda < 0 then Some (lambda * 2) else findExtentOfRay_double err (lambda * 2))"

text \<open>The anchor \<open>x\<close> and the upper end \<open>lambda\<close> of the search (lines 162 to 191).\<close>

definition findExtentOfRay_anchor ::
  "Externals \<Rightarrow> CameraProperties \<Rightarrow> vec3 \<Rightarrow> vec3 \<Rightarrow> real \<Rightarrow> (fault + Point2d \<times> real) option" where
  "findExtentOfRay_anchor E intr A B delta =
     (let a3 = third A; b3 = third B in
      if b3 < 0 then
        (if third B \<noteq> 0 then
           (let x = imagePointFromHomogeneous E B;
                x = distortAndUncalibrate E intr x
            in case findExtentOfRay_double (\<lambda>l. errorInDistanceFromPoint E x l A B delta intr) 1 of
                 None \<Rightarrow> None
               | Some lambda \<Rightarrow> Some (Inr (x, lambda)))
         else Some (Inl (CheckFailed ''B.at<double>(2, 0) != 0'')))
      else
        (case checked_div (- a3) b3 of
           Inl e \<Rightarrow> Some (Inl e)
         | Inr lambda \<Rightarrow>
             (let X = add3 A (scale3 lambda B);
                  x = (fst X, fst (snd X));
                  x = distortPointAtInfinity E x (distort_w intr);
                  x = uncalibrate E intr x
              in Some (Inr (x, lambda)))))"

text \<open>
  The quantization loop of lines 193 to 228, on the state \<open>x\<close>, \<open>lambda\<close>, \<open>lambdas\<close>.
  A failed \<^verbatim>\<open>CHECK\<close> and an error raised by the bisection end the process; the loop has
  no bound either.
\<close>

partial_function (option) findExtentOfRay_quantize ::
  "Externals \<Rightarrow> CameraProperties \<Rightarrow> vec3 \<Rightarrow> vec3 \<Rightarrow> real \<Rightarrow> real \<Rightarrow>
   Point2d \<Rightarrow> real \<Rightarrow> real list \<Rightarrow> (fault + real list) option" where
  "findExtentOfRay_quantize E intr A B delta lambda_min x lambda lambdas =
     (let f_max = errorInDistanceFromPoint E x lambda_min A B delta intr in
      if f_max < 0 then Some (Inr lambdas)
      else
        (let old_lambda = lambda in
         case bisect E (\<lambda>l. errorInDistanceFromPoint E x l A B delta intr) lambda_min lambda of
           None \<Rightarrow> Some (Inl EvaluationError)
         | Some interval \<Rightarrow>
             (let lambda = snd interval in
              if lambda \<noteq> old_lambda then
                (let lambdas = lambdas @ [lambda];
                     X = add3 A (scale3 lambda B);
                     x = imagePointFromHomogeneous E X;
                     x = distortAndUncalibrate E intr x
                 in findExtentOfRay_quantize E intr A B delta lambda_min x lambda lambdas)
              else Some (Inl (CheckFailed ''Entered limit cycle'')))))"

text \<open>
  One pass of the loop over the other cameras (lines 124 to 230). The source keeps the
  parameters it finds in the local vector \<open>lambdas\<close> and logs their number; the model
  returns that vector. A view that is skipped by \<^verbatim>\<open>continue\<close> has found no parameter:
  its vector is empty.
\<close>

definition findExtentOfRay_other ::
  "Externals \<Rightarrow> Point3d \<Rightarrow> Point3d \<Rightarrow> Camera \<Rightarrow> (fault + real list) option" where
  "findExtentOfRay_other E c v other =
     (case findExtentOfRay_AB E c v other of (A, B) \<Rightarrow>
        let a3 = third A; b3 = third B in
        if a3 > 0 \<and> b3 > 0 then Some (Inr [])
        else
          (let delta = 1 in
           case findExtentOfRay_lambda_min a3 b3 of
             Inl e \<Rightarrow> Some (Inl e)
           | Inr lambda_min \<Rightarrow>
               (case findExtentOfRay_anchor E (intrinsics other) A B delta of
                  None \<Rightarrow> None
                | Some (Inl e) \<Rightarrow> Some (Inl e)
                | Some (Inr (x, lambda)) \<Rightarrow>
                    findExtentOfRay_quantize E (intrinsics other) A B delta lambda_min
                      x lambda [])))"

fun findExtentOfRay_others ::
  "Externals \<Rightarrow> Point3d \<Rightarrow> Point3d \<Rightarrow> Camera list \<Rightarrow> (fault + real list list) option" where
  "findExtentOfRay_others E c v [] = Some (Inr [])"
| "findExtentOfRay_others E c v (other # others) =
     (case findExtentOfRay_other E c v other of
        None \<Rightarrow> None
      | Some (Inl e) \<Rightarrow> Some (Inl e)
      | Some (Inr lambdas) \<Rightarrow>
          (case findExtentOfRay_others E c v others of
             None \<Rightarrow> None
           | Some (Inl e) \<Rightarrow> Some (Inl e)
           | Some (Inr rest) \<Rightarrow> Some (Inr (lambdas # rest))))"

text \<open>\<^verbatim>\<open>findExtentOfRay\<close> itself returns nothing: what the passes found is dropped.\<close>

definition findExtentOfRay ::
  "Externals \<Rightarrow> Point2d \<Rightarrow> CameraPose \<Rightarrow> Camera list \<Rightarrow> (fault + unit) option" where
  "findExtentOfRay E projection pose others =
     (let w = projection;
          c = center pose;
          v = findExtentOfRay_direction w pose
      in case findExtentOfRay_others E c v others of
           None \<Rightarrow> None
         | Some (Inl e) \<Rightarrow> Some (Inl e)
         | Some (Inr found) \<Rightarrow> Some (Inr ()))"

section \<open>Multiview tracks\<close>

text \<open>
  Modelled from the spec: \<^verbatim>\<open>MultiviewTrack\<close> and \<^verbatim>\<open>MultiviewTrackList\<close> of
  \<^verbatim>\<open>multiview_track.hpp\<close> and \<^verbatim>\<open>multiview_track_list.hpp\<close>, which are absent. A
  multiview track has one slot per view, each a track of that view; built for a number
  of views it has that many empty slots. The list keeps its number of views and the
  multiview tracks in the order they were pushed.
\<close>

type_synonym 'a MultiviewTrack = "'a Track list"

definition MultiviewTrack :: "nat \<Rightarrow> 'a MultiviewTrack" where
  "MultiviewTrack num_views = replicate num_views []"

record 'a MultiviewTrackList =
  num_views :: nat
  tracks :: "'a MultiviewTrack list"

definition MultiviewTrackList :: "nat \<Rightarrow> 'a MultiviewTrackList" where
  "MultiviewTrackList n = \<lparr>num_views = n, tracks = []\<rparr>"

definition push_back :: "'a MultiviewTrackList \<Rightarrow> 'a MultiviewTrack \<Rightarrow> 'a MultiviewTrackList" where
  "push_back l t = l\<lparr>tracks := tracks l @ [t]\<rparr>"

definition extractCameraFromOtherView :: "OtherView \<Rightarrow> Camera" where
  "extractCameraFromOtherView view = camera view"

text \<open>The loop over the points of a track (lines 249 to 251).\<close>

fun findMultiviewTrack_points ::
  "Externals \<Rightarrow> CameraPose \<Rightarrow> Camera list \<Rightarrow> Point2d Track \<Rightarrow> (fault + unit) option" where
  "findMultiviewTrack_points E pose other_cameras [] = Some (Inr ())"
| "findMultiviewTrack_points E pose other_cameras (point # rest) =
     (case findExtentOfRay E (snd point) pose other_cameras of
        None \<Rightarrow> None
      | Some (Inl e) \<Rightarrow> Some (Inl e)
      | Some (Inr u) \<Rightarrow> findMultiviewTrack_points E pose other_cameras rest)"

definition findMultiviewTrack ::
  "Externals \<Rightarrow> Point2d Track \<Rightarrow> CameraPose \<Rightarrow> OtherView list \<Rightarrow>
   (fault + Point2d MultiviewTrack) option" where
  "findMultiviewTrack E track pose other_views =
     (let num_other_views = length other_views;
          num_views = num_other_views + 1;
          multiview_track = MultiviewTrack num_views;
          other_cameras = map extractCameraFromOtherView other_views
      in case findMultiviewTrack_points E pose other_cameras track of
           None \<Rightarrow> None
         | Some (Inl e) \<Rightarrow> Some (Inl e)
         | Some (Inr u) \<Rightarrow> Some (Inr multiview_track))"

text \<open>The loop over the tracks (lines 263 to 271), on the list built so far.\<close>

fun findMultiviewTracks_loop ::
  "Externals \<Rightarrow> CameraPose \<Rightarrow> OtherView list \<Rightarrow> Point2d MultiviewTrackList \<Rightarrow>
   Point2d Track list \<Rightarrow> (fault + Point2d MultiviewTrackList) option" where
  "findMultiviewTracks_loop E pose other_views multiview_tracks [] = Some (Inr multiview_tracks)"
| "findMultiviewTracks_loop E pose other_views multiview_tracks (track # rest) =
     (case findMultiviewTrack E track pose other_views of
        None \<Rightarrow> None
      | Some (Inl e) \<Rightarrow> Some (Inl e)
      | Some (Inr multiview_track) \<Rightarrow>
          findMultiviewTracks_loop E pose other_views
            (push_back multiview_tracks multiview_track) rest)"

definition findMultiviewTracks ::
  "Externals \<Rightarrow> Point2d Track list \<Rightarrow> CameraPose \<Rightarrow> OtherView list \<Rightarrow>
   (fault + Point2d MultiviewTrackList) option" where
  "findMultiviewTracks E track_list pose other_views =
     (let num_views = length other_views + 1
      in findMultiviewTracks_loop E pose other_views (MultiviewTrackList num_views) track_list)"

text \<open>
  The position in the other view of the point of the ray at \<open>lambda\<close>, as lines 222 to
  224 (and \<^verbatim>\<open>errorInDistanceFromPoint\<close>) compute it.
\<close>

definition findExtentOfRay_position ::
  "Externals \<Rightarrow> CameraProperties \<Rightarrow> vec3 \<Rightarrow> vec3 \<Rightarrow> real \<Rightarrow> Point2d" where
  "findExtentOfRay_position E intr A B lambda =
     distortAndUncalibrate E intr (imagePointFromHomogeneous E (add3 A (scale3 lambda B)))"

section \<open>Conditions on the bisection\<close>

text \<open>
  What the theorems below ask of the bisection, where they ask anything. Both conditions
  hold of Boost's algorithm, and both are proved further down for the bisection of the
  concrete setting. The first: the upper end of the interval it returns lies in the
  bracket it was given (or is one of the two ends of that bracket, which Boost returns
  before it looks at their order when the function vanishes there). The second: the
  interval it returns is either a single point where the function vanishes, or an
  interval across which the function changes sign, with the sign it has at the lower
  end of the bracket on the left.
\<close>

definition bisect_in_bracket :: "Externals \<Rightarrow> bool" where
  "bisect_in_bracket E =
     (\<forall>f lo hi a b. bisect E f lo hi = Some (a, b) \<longrightarrow>
        b = lo \<or> b = hi \<or> (lo \<le> b \<and> b \<le> hi))"


section \<open>A concrete setting: pinhole cameras without distortion\<close>

text \<open>
  An instance of the external functions, on which the definitions can be run: the
  inverse of a 3x3 matrix by cofactors (the zero matrix for a singular one, as OpenCV
  returns), the perspective division, no distortion, the pose matrix \<open>[R | - R c]\<close>,
  and a bisection after Boost's: it returns an end of the bracket where the function
  vanishes, raises its error on a bracket in the wrong order or without a change of
  sign, and otherwise halves the bracket until the tolerance of 16 bits is met, a
  midpoint is a zero, or the iterations are used up.
\<close>

fun det33 :: "mat33 \<Rightarrow> real" where
  "det33 ((a, b, c), (d, e, f), (g, h, i)) =
     a * (e * i - f * h) - b * (d * i - f * g) + c * (d * h - e * g)"

fun inverse33 :: "mat33 \<Rightarrow> mat33" where
  "inverse33 ((a, b, c), (d, e, f), (g, h, i)) =
     (let D = det33 ((a, b, c), (d, e, f), (g, h, i)) in
      if D = 0 then ((0, 0, 0), (0, 0, 0), (0, 0, 0))
      else (((e * i - f * h) / D, (c * h - b * i) / D, (b * f - c * e) / D),
            ((f * g - d * i) / D, (a * i - c * g) / D, (c * d - a * f) / D),
            ((d * h - e * g) / D, (b * g - a * h) / D, (a * e - b * d) / D)))"

fun perspective :: "vec3 \<Rightarrow> Point2d" where
  "perspective (x, y, z) = (x / z, y / z)"

definition pinhole_uncalibrate :: "CameraProperties \<Rightarrow> Point2d \<Rightarrow> Point2d" where
  "pinhole_uncalibrate intr x = perspective (mul33 (matrix intr) (imagePointToHomogeneous x))"

fun within_radius :: "Point2d \<Rightarrow> real \<Rightarrow> bool" where
  "within_radius (x, y) w = (w * w * (x * x + y * y) < 1)"

fun pinhole_pose_matrix :: "CameraPose \<Rightarrow> mat34" where
  "pinhole_pose_matrix pose =
     (case rotation pose of (R0, R1, R2) \<Rightarrow>
        case (R0, R1, R2, center pose) of
          ((r00, r01, r02), (r10, r11, r12), (r20, r21, r22), c) \<Rightarrow>
            ((r00, r01, r02, - dot3 R0 c),
             (r10, r11, r12, - dot3 R1 c),
             (r20, r21, r22, - dot3 R2 c)))"

definition eps_tolerance :: "real \<Rightarrow> real \<Rightarrow> bool" where
  "eps_tolerance a b = (\<bar>a - b\<bar> \<le> (1 / 2 ^ 15) * min \<bar>a\<bar> \<bar>b\<bar>)"

fun bisect_loop :: "nat \<Rightarrow> (real \<Rightarrow> real) \<Rightarrow> real \<Rightarrow> real \<Rightarrow> real \<Rightarrow> real \<times> real" where
  "bisect_loop 0 f fmin lo hi = (lo, hi)"
| "bisect_loop (Suc count) f fmin lo hi =
     (if eps_tolerance lo hi then (lo, hi)
      else
        (let mid = (lo + hi) / 2; fmid = f mid in
         if mid = hi \<or> mid = lo then (lo, hi)
         else if fmid = 0 then (mid, mid)
         else if sgn fmid * sgn fmin < 0 then bisect_loop count f fmin lo mid
         else bisect_loop count f fmid mid hi))"

definition bisect_halving :: "nat \<Rightarrow> (real \<Rightarrow> real) \<Rightarrow> real \<Rightarrow> real \<Rightarrow> (real \<times> real) option" where
  "bisect_halving max_iter f lo hi =
     (let fmin = f lo; fmax = f hi in
      if fmin = 0 then Some (lo, lo)
      else if fmax = 0 then Some (hi, hi)
      else if lo \<ge> hi then None
      else if fmin * fmax \<ge> 0 then None
      else Some (bisect_loop (max_iter - 3) f fmin lo hi))"

definition pinhole :: Externals where
  "pinhole =
     \<lparr>mat_inv = inverse33,
      imagePointFromHomogeneous = perspective,
      isUndistortable = within_radius,
      undistort = (\<lambda>x w. x),
      distortPointAtInfinity = (\<lambda>x w. x),
      distortAndUncalibrate = pinhole_uncalibrate,
      uncalibrate = pinhole_uncalibrate,
      poseMatrix = pinhole_pose_matrix,
      bisect = bisect_halving 1000\<rparr>"

text \<open>
  The same setting with an \<open>undistort\<close> that moves points: the inverse of a
  division-style radial distortion, defined where \<open>within_radius\<close> holds.
\<close>

fun division_undistort :: "Point2d \<Rightarrow> real \<Rightarrow> Point2d" where
  "division_undistort (x, y) w =
     (x / (1 - w * w * (x * x + y * y)), y / (1 - w * w * (x * x + y * y)))"

definition radial :: Externals where
  "radial = pinhole\<lparr>undistort := division_undistort\<rparr>"

text \<open>
  The reference camera stands at the origin and looks along the negative z axis. The
  camera \<open>side_camera\<close> has focal length 4, is turned about the y axis and stands at
  \<open>(3/5, 0, 4/5)\<close>; the camera \<open>back_camera\<close> is turned away from the ray.
\<close>

definition reference_pose :: CameraPose where
  "reference_pose = \<lparr>rotation = ((1, 0, 0), (0, 1, 0), (0, 0, 1)), center = (0, 0, 0)\<rparr>"

definition focal4 :: CameraProperties where
  "focal4 = \<lparr>matrix = ((4, 0, 0), (0, 4, 0), (0, 0, 1)), distort_w = 1\<rparr>"

definition side_camera :: Camera where
  "side_camera =
     \<lparr>intrinsics = focal4,
      extrinsics = \<lparr>rotation = ((4/5, 0, -3/5), (0, 1, 0), (3/5, 0, 4/5)),
                    center = (3/5, 0, 4/5)\<rparr>\<rparr>"

definition back_camera :: Camera where
  "back_camera =
     \<lparr>intrinsics = focal4,
      extrinsics = \<lparr>rotation = ((1, 0, 0), (0, -1, 0), (0, 0, -1)),
                    center = (0, 0, 1)\<rparr>\<rparr>"

definition side_view :: OtherView where
  "side_view = \<lparr>index = 1, camera = side_camera\<rparr>"

definition raw_track :: "Point2d Track" where
  "raw_track = [(0, (0, 0)), (3, (8, 0)), (7, (2, 0))]"


section \<open>Tracks: insertion in key order\<close>

lemma insert_entry_last:
  "\<forall>q\<in>set out. fst q < fst p \<Longrightarrow> insert_entry p out = out @ [p]"
  by (induction out) auto

lemma foldl_insert_entry:
  assumes "sorted_wrt (<) (map fst t)"
    and "\<forall>q\<in>set out. \<forall>p\<in>set t. fst q < fst p"
    and "\<And>p. fst (f p) = fst p"
  shows "foldl (\<lambda>out p. if pred p then out else insert_entry (f p) out) out t
         = out @ map f (filter (\<lambda>p. \<not> pred p) t)"
  using assms(1,2)
proof (induction t arbitrary: out)
  case Nil
  then show ?case by simp
next
  case (Cons p t)
  show ?case
  proof (cases "pred p")
    case True
    with Cons show ?thesis by simp
  next
    case False
    have ins: "insert_entry (f p) out = out @ [f p]"
      using Cons.prems(2) by (intro insert_entry_last) (simp add: assms(3))
    have "\<forall>q\<in>set (out @ [f p]). \<forall>r\<in>set t. fst q < fst r"
      using Cons.prems by (auto simp: assms(3))
    with Cons.IH [of "out @ [f p]"] Cons.prems(1) False ins show ?thesis by simp
  qed
qed

lemma transform_into_map:
  assumes "is_track t" and "\<And>p. fst (f p) = fst p"
  shows "transform_into f t = map f t"
  using foldl_insert_entry [of t "[]" f "\<lambda>_. False"] assms
  by (simp add: transform_into_def is_track_def)

lemma remove_copy_if_into_filter:
  assumes "is_track t"
  shows "remove_copy_if_into pred t = filter (\<lambda>p. \<not> pred p) t"
  using foldl_insert_entry [of t "[]" "\<lambda>p. p" pred] assms
  by (simp add: remove_copy_if_into_def is_track_def)

lemma is_track_map:
  "is_track t \<Longrightarrow> (\<And>p. fst (f p) = fst p) \<Longrightarrow> is_track (map f t)"
  by (simp add: is_track_def comp_def)

lemma is_track_filter: "is_track t \<Longrightarrow> is_track (filter P t)"
  unfolding is_track_def by (induction t) auto

lemma is_track_same_key:
  assumes "is_track t" and "p \<in> set t" and "q \<in> set t" and "fst p = fst q"
  shows "p = q"
proof -
  have "distinct (map fst t)"
    using assms(1) unfolding is_track_def by (simp add: strict_sorted_iff)
  then show ?thesis
    using assms(2-4) by (metis eq_key_imp_eq_value prod.collapse)
qed

lemma calibrateAndUndistortTrack_pipeline:
  assumes "is_track track"
  shows "calibrateAndUndistortTrack E track intr =
     map (\<lambda>p. undistortIndexedPoint E p (distort_w intr))
       (filter (\<lambda>p. isUndistortable E (snd p) (distort_w intr))
          (map (\<lambda>p. calibrateIndexedPoint E p (mat_inv E (matrix intr))) track))"
proof -
  let ?cal = "\<lambda>p. calibrateIndexedPoint E p (mat_inv E (matrix intr))"
  let ?bad = "\<lambda>p. indexedPointIsNotUndistortable E p (distort_w intr)"
  let ?und = "\<lambda>p. undistortIndexedPoint E p (distort_w intr)"
  have c: "transform_into ?cal track = map ?cal track"
    using assms by (intro transform_into_map) (simp_all add: calibrateIndexedPoint_def Let_def)
  have tc: "is_track (map ?cal track)"
    using assms by (intro is_track_map) (simp_all add: calibrateIndexedPoint_def Let_def)
  have v: "remove_copy_if_into ?bad (map ?cal track) = filter (\<lambda>p. \<not> ?bad p) (map ?cal track)"
    using tc by (rule remove_copy_if_into_filter)
  have tv: "is_track (filter (\<lambda>p. \<not> ?bad p) (map ?cal track))"
    using tc by (rule is_track_filter)
  have u: "transform_into ?und (filter (\<lambda>p. \<not> ?bad p) (map ?cal track))
           = map ?und (filter (\<lambda>p. \<not> ?bad p) (map ?cal track))"
    using tv by (intro transform_into_map) (simp_all add: undistortIndexedPoint_def)
  show ?thesis
    unfolding calibrateAndUndistortTrack_def Let_def c v u
    by (simp add: indexedPointIsNotUndistortable_def)
qed

lemma calibrateAndUndistortTrack_keys:
  assumes "is_track track"
  shows "map fst (calibrateAndUndistortTrack E track intr) =
     map fst (filter (\<lambda>p. isUndistortable E
                 (snd (calibrateIndexedPoint E p (mat_inv E (matrix intr)))) (distort_w intr)) track)"
  unfolding calibrateAndUndistortTrack_pipeline [OF assms]
  by (simp add: filter_map comp_def undistortIndexedPoint_def calibrateIndexedPoint_def Let_def)

lemma is_track_raw_track: "is_track raw_track"
  by (simp add: is_track_def raw_track_def)

lemma focal4_inverse:
  "mat_inv pinhole (matrix focal4) = ((1/4, 0, 0), (0, 1/4, 0), (0, 0, 1))"
  by (simp add: pinhole_def focal4_def)

lemma pinhole_calibrate:
  "calibrateIndexedPoint pinhole (k, (x, y)) ((1/4, 0, 0), (0, 1/4, 0), (0, 0, 1))
     = (k, (x / 4, y / 4))"
  by (simp add: calibrateIndexedPoint_def pinhole_def)

section \<open>The ray search: unfolding and induction\<close>

lemma error_position:
  "errorInDistanceFromPoint E y l A B d intr
     = norm2 (sub2 (findExtentOfRay_position E intr A B l) y) - d"
  by (simp add: errorInDistanceFromPoint_def findExtentOfRay_position_def)

lemma focal4_position:
  "findExtentOfRay_position pinhole focal4 (a1, 0, a3) (b1, 0, b3) l
     = (4 * (a1 + l * b1) / (a3 + l * b3), 0)"
  by (simp add: findExtentOfRay_position_def pinhole_def focal4_def pinhole_uncalibrate_def)

lemma focal4_error:
  "errorInDistanceFromPoint pinhole (x, 0) l (a1, 0, a3) (b1, 0, b3) d focal4
     = \<bar>4 * (a1 + l * b1) / (a3 + l * b3) - x\<bar> - d"
  by (simp add: error_position focal4_position)

lemma focal4_vanishing:
  "distortAndUncalibrate pinhole focal4 (imagePointFromHomogeneous pinhole (b1, 0, b3))
     = (4 * b1 / b3, 0)"
  by (simp add: pinhole_def focal4_def pinhole_uncalibrate_def)

lemma side_AB:
  "findExtentOfRay_AB pinhole (0, 0, 0) (0, 0, -1) side_camera = ((0, 0, -1), (3/5, 0, -4/5))"
  by (simp add: findExtentOfRay_AB_def pinhole_def side_camera_def)

lemma back_AB:
  "findExtentOfRay_AB pinhole (0, 0, 0) (0, 0, -1) back_camera = ((0, 0, 1), (0, 0, 1))"
  by (simp add: findExtentOfRay_AB_def pinhole_def back_camera_def)


lemma pinhole_bisect: "bisect pinhole = bisect_halving 1000"
  by (simp add: pinhole_def)

lemma quantize_unfold:
  "findExtentOfRay_quantize E intr A B d m x lam lams =
     (if errorInDistanceFromPoint E x m A B d intr < 0 then Some (Inr lams)
      else case bisect E (\<lambda>l. errorInDistanceFromPoint E x l A B d intr) m lam of
             None \<Rightarrow> Some (Inl EvaluationError)
           | Some interval \<Rightarrow>
               if snd interval \<noteq> lam
               then findExtentOfRay_quantize E intr A B d m
                      (findExtentOfRay_position E intr A B (snd interval))
                      (snd interval) (lams @ [snd interval])
               else Some (Inl (CheckFailed ''Entered limit cycle'')))"
  by (subst findExtentOfRay_quantize.simps)
     (simp add: Let_def findExtentOfRay_position_def split: option.splits)

lemma quantize_rule [consumes 1, case_names stop error cycle step]:
  assumes run: "findExtentOfRay_quantize E intr A B d m x lam lams = Some r"
    and stop: "\<And>x lam lams. errorInDistanceFromPoint E x m A B d intr < 0 \<Longrightarrow>
                 P x lam lams (Inr lams)"
    and err: "\<And>x lam lams. \<not> errorInDistanceFromPoint E x m A B d intr < 0 \<Longrightarrow>
                 bisect E (\<lambda>l. errorInDistanceFromPoint E x l A B d intr) m lam = None \<Longrightarrow>
                 P x lam lams (Inl EvaluationError)"
    and cyc: "\<And>x lam lams a. \<not> errorInDistanceFromPoint E x m A B d intr < 0 \<Longrightarrow>
                 bisect E (\<lambda>l. errorInDistanceFromPoint E x l A B d intr) m lam = Some (a, lam) \<Longrightarrow>
                 P x lam lams (Inl (CheckFailed ''Entered limit cycle''))"
    and step: "\<And>x lam lams a b r. \<not> errorInDistanceFromPoint E x m A B d intr < 0 \<Longrightarrow>
                 bisect E (\<lambda>l. errorInDistanceFromPoint E x l A B d intr) m lam = Some (a, b) \<Longrightarrow>
                 b \<noteq> lam \<Longrightarrow>
                 P (findExtentOfRay_position E intr A B b) b (lams @ [b]) r \<Longrightarrow>
                 P x lam lams r"
  shows "P x lam lams r"
proof -
  let ?Q = "\<lambda>E' intr' A' B' d' m' x lam lams r.
              E' = E \<and> intr' = intr \<and> A' = A \<and> B' = B \<and> d' = d \<and> m' = m \<longrightarrow> P x lam lams r"
  have "?Q E intr A B d m x lam lams r"
  proof (rule findExtentOfRay_quantize.raw_induct
      [where P = ?Q and xa = "((((((((E, intr), A), B), d), m), x), lam), lams)" and y = r,
        unfolded prod.case])
    show "findExtentOfRay_quantize E intr A B d m x lam lams = Some r" by (rule run)
  next
    fix q E' intr' A' B' d' m' x lam lams r
    assume IH: "\<And>intr A B delta lambda_min x lambda lambdas b y.
        q intr A B delta lambda_min x lambda lambdas b = Some y \<Longrightarrow>
        ?Q intr A B delta lambda_min x lambda lambdas b y"
      and body: "(let f_max = errorInDistanceFromPoint E' x m' A' B' d' intr'
      in if f_max < 0 then Some (Inr lams)
         else let old_lambda = lam
              in case bisect E' (\<lambda>l. errorInDistanceFromPoint E' x l A' B' d' intr') m' lam of
                 None \<Rightarrow> Some (Inl EvaluationError)
                 | Some interval \<Rightarrow>
                     let lambda = snd interval
                     in if lambda \<noteq> old_lambda
                        then let lambdas = lams @ [lambda];
                                 X = add3 A' (scale3 lambda B');
                                 x = imagePointFromHomogeneous E' X;
                                 x = distortAndUncalibrate E' intr' x
                             in q E' intr' A' B' d' m' x lambda lambdas
                        else Some (Inl (CheckFailed ''Entered limit cycle''))) = Some r"
    show "?Q E' intr' A' B' d' m' x lam lams r"
    proof (intro impI, elim conjE)
      assume eqs: "E' = E" "intr' = intr" "A' = A" "B' = B" "d' = d" "m' = m"
      show "P x lam lams r"
      proof (cases "errorInDistanceFromPoint E x m A B d intr < 0")
        case True
        with body eqs have "r = Inr lams" by (simp add: Let_def)
        with stop [OF True] show ?thesis by simp
      next
        case False
        show ?thesis
        proof (cases "bisect E (\<lambda>l. errorInDistanceFromPoint E x l A B d intr) m lam")
          case None
          with body eqs False have "r = Inl EvaluationError" by (simp add: Let_def)
          with err [OF False None] show ?thesis by simp
        next
          case (Some interval)
          obtain a b where ab: "interval = (a, b)" by (cases interval)
          show ?thesis
          proof (cases "b = lam")
            case True
            with body eqs False Some ab
            have "r = Inl (CheckFailed ''Entered limit cycle'')" by (simp add: Let_def)
            with cyc [OF False, of lam a lams] Some ab True show ?thesis by simp
          next
            case neq: False
            with body eqs False Some ab
            have "q E intr A B d m (findExtentOfRay_position E intr A B b) b (lams @ [b]) = Some r"
              by (simp add: Let_def findExtentOfRay_position_def)
            from IH [OF this] have "P (findExtentOfRay_position E intr A B b) b (lams @ [b]) r"
              by simp
            with step [OF False _ neq, of a lams r] Some ab show ?thesis by simp
          qed
        qed
      qed
    qed
  qed
  then show ?thesis by simp
qed


lemma quantize_decreasing:
  assumes "findExtentOfRay_quantize E intr A B d m x lam lams = Some r"
    and "bisect_in_bracket E"
  shows "\<forall>out. r = Inr out \<longrightarrow>
           (\<exists>new. out = lams @ new \<and> sorted_wrt (>) new \<and> (\<forall>l\<in>set new. m \<le> l) \<and>
              (m \<le> lam \<longrightarrow> (\<forall>l\<in>set new. l < lam)))"
  using assms(1)
proof (induction rule: quantize_rule)
  case (stop x lam lams)
  then show ?case by simp
next
  case (error x lam lams)
  then show ?case by simp
next
  case (cycle x lam lams a)
  then show ?case by simp
next
  case (step x lam lams a b r)
  from assms(2) step(2) step(3) have br: "b = m \<or> (m \<le> b \<and> b \<le> lam)"
    unfolding bisect_in_bracket_def by blast
  show ?case
  proof (intro allI impI)
    fix out assume "r = Inr out"
    with step.IH obtain new where new: "out = (lams @ [b]) @ new" "sorted_wrt (>) new"
      "\<forall>l\<in>set new. m \<le> l" "m \<le> b \<longrightarrow> (\<forall>l\<in>set new. l < b)" by blast
    have mb: "m \<le> b" using br by auto
    with new(4) have below: "\<forall>l\<in>set new. l < b" by simp
    have "out = lams @ (b # new)" using new(1) by simp
    moreover have "sorted_wrt (>) (b # new)" using new(2) below by auto
    moreover have "\<forall>l\<in>set (b # new). m \<le> l" using new(3) mb by simp
    moreover have "m \<le> lam \<longrightarrow> (\<forall>l\<in>set (b # new). l < lam)"
    proof
      assume "m \<le> lam"
      with br step(3) have "b < lam" by auto
      with below show "\<forall>l\<in>set (b # new). l < lam" by auto
    qed
    ultimately show "\<exists>new. out = lams @ new \<and> sorted_wrt (>) new \<and> (\<forall>l\<in>set new. m \<le> l) \<and>
              (m \<le> lam \<longrightarrow> (\<forall>l\<in>set new. l < lam))" by blast
  qed
qed

section \<open>The ray search run on the side camera\<close>

lemma side_anchor:
  "findExtentOfRay_anchor pinhole focal4 (0, 0, -1) (3/5, 0, -4/5) 1 = Some (Inr ((-3, 0), 8))"
  apply (simp add: findExtentOfRay_anchor_def focal4_vanishing focal4_error)
  apply (subst findExtentOfRay_double.simps, simp)+
  done

lemma side_quantize:
  "findExtentOfRay_quantize pinhole focal4 (0, 0, -1) (3/5, 0, -4/5) 1 0 (-3, 0) 8 []
     = Some (Inr [5/2, 5/8, 0])"
  apply (subst quantize_unfold)
  apply (simp add: focal4_error focal4_position pinhole_bisect bisect_halving_def
      numeral_eq_Suc eps_tolerance_def Let_def)
  apply (subst quantize_unfold)
  apply (simp add: focal4_error focal4_position pinhole_bisect bisect_halving_def
      numeral_eq_Suc eps_tolerance_def Let_def)
  apply (subst quantize_unfold)
  apply (simp add: focal4_error focal4_position pinhole_bisect bisect_halving_def
      numeral_eq_Suc eps_tolerance_def Let_def)
  apply (subst quantize_unfold)
  apply (simp add: focal4_error focal4_position pinhole_bisect bisect_halving_def
      numeral_eq_Suc eps_tolerance_def Let_def)
  done

lemma side_intrinsics: "intrinsics side_camera = focal4"
  by (simp add: side_camera_def)

lemma side_run:
  "findExtentOfRay_other pinhole (0, 0, 0) (0, 0, -1) side_camera = Some (Inr [5/2, 5/8, 0])"
  unfolding findExtentOfRay_other_def side_AB prod.case Let_def side_intrinsics
  using side_anchor side_quantize by (simp add: findExtentOfRay_lambda_min_def)

lemma reference_direction:
  "findExtentOfRay_direction (0, 0) reference_pose = (0, 0, -1)"
  by (simp add: findExtentOfRay_direction_def reference_pose_def Mat_at_def)

lemma bisect_loop_in_bracket:
  "lo \<le> hi \<Longrightarrow> bisect_loop n f fmin lo hi = (a, b) \<Longrightarrow> lo \<le> b \<and> b \<le> hi"
proof (induction n arbitrary: fmin lo hi)
  case 0
  then show ?case by simp
next
  case (Suc n)
  let ?mid = "(lo + hi) / 2"
  have mid: "lo \<le> ?mid" "?mid \<le> hi" using Suc.prems(1) by simp_all
  show ?case
  proof (cases "eps_tolerance lo hi \<or> ?mid = hi \<or> ?mid = lo")
    case True
    with Suc.prems show ?thesis by (auto simp: Let_def split: if_splits)
  next
    case False
    show ?thesis
    proof (cases "f ?mid = 0")
      case True
      with False Suc.prems mid show ?thesis by (auto simp: Let_def)
    next
      case nz: False
      show ?thesis
      proof (cases "sgn (f ?mid) * sgn fmin < 0")
        case True
        with False nz Suc.prems(2) have "bisect_loop n f fmin lo ?mid = (a, b)"
          by (simp add: Let_def)
        from Suc.IH [OF mid(1) this] mid show ?thesis by simp
      next
        case f: False
        with False nz Suc.prems(2) have "bisect_loop n f (f ?mid) ?mid hi = (a, b)"
          by (simp add: Let_def)
        from Suc.IH [OF mid(2) this] mid show ?thesis by simp
      qed
    qed
  qed
qed

lemma bisect_halving_in_bracket:
  assumes "bisect_halving n f lo hi = Some (a, b)"
  shows "b = lo \<or> b = hi \<or> (lo \<le> b \<and> b \<le> hi)"
proof (cases "f lo = 0 \<or> f hi = 0")
  case True
  with assms show ?thesis by (auto simp: bisect_halving_def Let_def split: if_splits)
next
  case False
  with assms have lt: "lo < hi" and l: "bisect_loop (n - 3) f (f lo) lo hi = (a, b)"
    by (auto simp: bisect_halving_def Let_def split: if_splits)
  from bisect_loop_in_bracket [OF _ l] lt show ?thesis by simp
qed

lemma pinhole_in_bracket: "bisect_in_bracket pinhole"
  unfolding bisect_in_bracket_def pinhole_bisect
  using bisect_halving_in_bracket by blast

section \<open>The ray: direction and projection\<close>

lemma mul34_ray:
  "add3 (mul34 P (worldPointToHomogeneous c 1)) (scale3 l (mul34 P (worldPointToHomogeneous v 0)))
     = mul34 P (worldPointToHomogeneous (add3 c (scale3 l v)) 1)"
proof -
  obtain p0 p1 p2 where P: "P = (p0, p1, p2)" by (cases P)
  obtain a0 a1 a2 a3 where p0: "p0 = (a0, a1, a2, a3)" by (cases p0)
  obtain b0 b1 b2 b3 where p1: "p1 = (b0, b1, b2, b3)" by (cases p1)
  obtain d0 d1 d2 d3 where p2: "p2 = (d0, d1, d2, d3)" by (cases p2)
  obtain c1 c2 c3 where c: "c = (c1, c2, c3)" by (cases c)
  obtain v1 v2 v3 where v: "v = (v1, v2, v3)" by (cases v)
  show ?thesis
    unfolding P p0 p1 p2 c v by (simp add: algebra_simps)
qed

lemma direction_cross:
  "findExtentOfRay_direction w pose =
     neg3 (cross3 (sub3 (fst (rotation pose)) (scale3 (fst w) (snd (snd (rotation pose)))))
                  (sub3 (fst (snd (rotation pose))) (scale3 (snd w) (snd (snd (rotation pose))))))"
proof -
  obtain R0 R1 R2 where R: "rotation pose = (R0, R1, R2)" by (cases "rotation pose")
  obtain x y z where n: "neg3 (cross3 (sub3 R0 (scale3 (fst w) R2)) (sub3 R1 (scale3 (snd w) R2))) = (x, y, z)"
    by (cases "neg3 (cross3 (sub3 R0 (scale3 (fst w) R2)) (sub3 R1 (scale3 (snd w) R2)))")
  show ?thesis
    unfolding findExtentOfRay_direction_def R prod.case Let_def fst_conv snd_conv n
    by (simp add: Mat_at_def)
qed

lemma cross3_orthogonal:
  "dot3 a (neg3 (cross3 a b)) = 0 \<and> dot3 b (neg3 (cross3 a b)) = 0"
proof -
  obtain a1 a2 a3 where a: "a = (a1, a2, a3)" by (cases a)
  obtain b1 b2 b3 where b: "b = (b1, b2, b3)" by (cases b)
  show ?thesis unfolding a b by (simp add: algebra_simps)
qed

lemma lambda_min_nonneg:
  assumes "\<not> (a3 > 0 \<and> b3 > 0)" and "findExtentOfRay_lambda_min a3 b3 = Inr m"
  shows "0 \<le> m"
proof (cases "a3 < 0")
  case True
  with assms(2) show ?thesis by (simp add: findExtentOfRay_lambda_min_def)
next
  case False
  with assms(2) have b: "b3 \<noteq> 0" and m: "m = - a3 / b3"
    by (auto simp: findExtentOfRay_lambda_min_def checked_div_def split: if_splits)
  show ?thesis
  proof (cases "a3 = 0")
    case True
    with m show ?thesis by simp
  next
    case nz: False
    with False assms(1) b have "a3 > 0" "b3 < 0" by auto
    then have "a3 / b3 \<le> 0" by (simp add: divide_nonneg_neg divide_le_0_iff)
    with m show ?thesis by simp
  qed
qed

section \<open>The interval the bisection returns\<close>







lemma radial_inverse:
  "mat_inv radial (matrix focal4) = ((1/4, 0, 0), (0, 1/4, 0), (0, 0, 1))"
  by (simp add: radial_def pinhole_def focal4_def)

section \<open>The builder: its loops\<close>

lemma findMultiviewTrack_points_normal:
  "(findMultiviewTrack_points E pose cams track = Some (Inr u)) =
   (\<forall>p\<in>set track. findExtentOfRay E (snd p) pose cams = Some (Inr ()))"
  by (induction track) (auto split: option.splits sum.splits)

lemma findMultiviewTracks_loop_result:
  "findMultiviewTracks_loop E pose views acc ts = Some (Inr l) \<Longrightarrow>
   l = acc\<lparr>tracks := tracks acc @ replicate (length ts) (MultiviewTrack (length views + 1))\<rparr>"
proof (induction ts arbitrary: acc)
  case Nil
  then show ?case by simp
next
  case (Cons t ts)
  from Cons.prems obtain mt where
    mt: "findMultiviewTrack E t pose views = Some (Inr mt)"
    and rest: "findMultiviewTracks_loop E pose views (push_back acc mt) ts = Some (Inr l)"
    by (auto split: option.splits sum.splits)
  from mt have "mt = MultiviewTrack (length views + 1)"
    by (auto simp: findMultiviewTrack_def Let_def split: option.splits sum.splits)
  with Cons.IH [OF rest] show ?case
    by (simp add: push_back_def replicate_append_same)
qed

lemma side_others:
  "findExtentOfRay_others pinhole (0, 0, 0) (0, 0, -1) [side_camera]
     = Some (Inr [[5/2, 5/8, 0]])"
  using side_run by simp

lemma side_findExtentOfRay:
  "findExtentOfRay pinhole (0, 0) reference_pose [side_camera] = Some (Inr ())"
proof -
  have c: "center reference_pose = (0, 0, 0)" by (simp add: reference_pose_def)
  show ?thesis
    unfolding findExtentOfRay_def Let_def reference_direction c side_others by simp
qed

section \<open>The calibrator: stages and surviving frames\<close>

text \<open>
  C8. On a track (entries by increasing frame index, each index once),
  \<open>calibrateAndUndistortTrack\<close> does three things in this order. Every point is
  calibrated: multiplied, in homogeneous form, by the inverse of the calibration matrix
  and normalised again. The entries whose calibrated point fails \<open>isUndistortable\<close> are
  removed. \<open>undistort\<close> is applied to the calibrated point of each remaining entry.
  The frame indices of the result are those of the input entries that pass the test, in
  the same order and unchanged, and the result is again a track.
\<close>

theorem calibrateAndUndistortTrack_stages:
  assumes "is_track track"
  shows "calibrateAndUndistortTrack E track intr =
           map (\<lambda>p. (fst p, undistort E (snd p) (distort_w intr)))
             (filter (\<lambda>p. isUndistortable E (snd p) (distort_w intr))
                (map (\<lambda>p. (fst p,
                        imagePointFromHomogeneous E
                          (mul33 (mat_inv E (matrix intr)) (imagePointToHomogeneous (snd p)))))
                   track))
       \<and> map fst (calibrateAndUndistortTrack E track intr) =
           map fst (filter (\<lambda>p. isUndistortable E
                       (imagePointFromHomogeneous E
                          (mul33 (mat_inv E (matrix intr)) (imagePointToHomogeneous (snd p))))
                       (distort_w intr)) track)
       \<and> is_track (calibrateAndUndistortTrack E track intr)"
proof -
  let ?cal = "\<lambda>p. (fst p, imagePointFromHomogeneous E
                          (mul33 (mat_inv E (matrix intr)) (imagePointToHomogeneous (snd p))))"
  have cal: "(\<lambda>p. calibrateIndexedPoint E p (mat_inv E (matrix intr))) = ?cal"
    by (intro ext) (simp add: calibrateIndexedPoint_def Let_def)
  have und: "(\<lambda>p. undistortIndexedPoint E p (distort_w intr))
               = (\<lambda>p. (fst p, undistort E (snd p) (distort_w intr)))"
    by (intro ext) (simp add: undistortIndexedPoint_def)
  have pipe: "calibrateAndUndistortTrack E track intr =
           map (\<lambda>p. (fst p, undistort E (snd p) (distort_w intr)))
             (filter (\<lambda>p. isUndistortable E (snd p) (distort_w intr)) (map ?cal track))"
    using calibrateAndUndistortTrack_pipeline [OF assms, of E intr] unfolding cal und .
  have keys: "map fst (calibrateAndUndistortTrack E track intr) =
           map fst (filter (\<lambda>p. isUndistortable E
                       (imagePointFromHomogeneous E
                          (mul33 (mat_inv E (matrix intr)) (imagePointToHomogeneous (snd p))))
                       (distort_w intr)) track)"
    unfolding pipe by (simp add: filter_map comp_def)
  have "is_track (filter (\<lambda>p. isUndistortable E
                       (imagePointFromHomogeneous E
                          (mul33 (mat_inv E (matrix intr)) (imagePointToHomogeneous (snd p))))
                       (distort_w intr)) track)"
    using assms by (rule is_track_filter)
  then have "is_track (calibrateAndUndistortTrack E track intr)"
    unfolding is_track_def keys .
  with pipe keys show ?thesis by blast
qed

theorem calibrateAndUndistortTrack_stages_witness:
  "is_track raw_track \<and>
   undistort radial (1/2, 0) (distort_w focal4) = (2/3, 0) \<and>
   calibrateAndUndistortTrack radial raw_track focal4 = [(0, (0, 0)), (7, (2/3, 0))]"
proof -
  have "calibrateAndUndistortTrack radial raw_track focal4 = [(0, (0, 0)), (7, (2/3, 0))]"
    using calibrateAndUndistortTrack_stages [OF is_track_raw_track, of radial focal4]
    unfolding radial_inverse
    by (simp add: raw_track_def radial_def pinhole_def focal4_def)
  moreover have "undistort radial (1/2, 0) (distort_w focal4) = (2/3, 0)"
    by (simp add: radial_def focal4_def)
  ultimately show ?thesis using is_track_raw_track by simp
qed

section \<open>The calibrator: which points are dropped\<close>

text \<open>
  C2 has the calibrator drop the points on which \<open>isUndistortable\<close> returns
  true. The source removes with the predicate \<^verbatim>\<open>indexedPointIsNotUndistortable\<close>, the
  negation: here the point of frame 0 passes \<open>isUndistortable\<close> and is kept, and the
  point of frame 3 fails it and is dropped.
\<close>

theorem calibrateAndUndistortTrack_drop_counterexample:
  "calibrateIndexedPoint pinhole (0, (0, 0)) (mat_inv pinhole (matrix focal4)) = (0, (0, 0)) \<and>
   isUndistortable pinhole (0, 0) (distort_w focal4) \<and>
   calibrateIndexedPoint pinhole (3, (8, 0)) (mat_inv pinhole (matrix focal4)) = (3, (2, 0)) \<and>
   \<not> isUndistortable pinhole (2, 0) (distort_w focal4) \<and>
   calibrateAndUndistortTrack pinhole [(0, (0, 0)), (3, (8, 0))] focal4 = [(0, (0, 0))]"
proof -
  have t: "is_track [(0::int, (0::real, 0::real)), (3, (8, 0))]" by (simp add: is_track_def)
  have "calibrateAndUndistortTrack pinhole [(0, (0, 0)), (3, (8, 0))] focal4 = [(0, (0, 0))]"
    unfolding calibrateAndUndistortTrack_pipeline [OF t] focal4_inverse
    by (simp add: pinhole_calibrate) (simp add: pinhole_def focal4_def undistortIndexedPoint_def)
  then show ?thesis
    unfolding focal4_inverse pinhole_calibrate by (simp add: pinhole_def focal4_def)
qed

text \<open>
  C2, as the code has it. On a track, the frames of the result are exactly the frames
  whose calibrated point passes \<open>isUndistortable\<close>: the calibrator drops a point when
  and only when \<open>isUndistortable\<close> returns false for its calibrated coordinate. The
  result does not depend on what \<open>undistort\<close> returns for a point that fails the test:
  \<open>undistort\<close> is applied to kept points only.
\<close>

theorem calibrateAndUndistortTrack_keeps_undistortable:
  assumes "is_track track"
  shows "(\<forall>p\<in>set track.
            (fst p \<in> fst ` set (calibrateAndUndistortTrack E track intr)) =
            isUndistortable E (snd (calibrateIndexedPoint E p (mat_inv E (matrix intr))))
              (distort_w intr))
       \<and> (\<forall>u. (\<forall>x. isUndistortable E x (distort_w intr) \<longrightarrow> u x (distort_w intr) = undistort E x (distort_w intr))
              \<longrightarrow> calibrateAndUndistortTrack (E\<lparr>undistort := u\<rparr>) track intr
                  = calibrateAndUndistortTrack E track intr)"
proof (intro conjI ballI allI impI)
  fix p assume p: "p \<in> set track"
  let ?ok = "\<lambda>p. isUndistortable E (snd (calibrateIndexedPoint E p (mat_inv E (matrix intr))))
              (distort_w intr)"
  have keys: "fst ` set (calibrateAndUndistortTrack E track intr) = fst ` set (filter ?ok track)"
    using calibrateAndUndistortTrack_keys [OF assms, of E intr]
    by (metis list.set_map)
  show "(fst p \<in> fst ` set (calibrateAndUndistortTrack E track intr)) = ?ok p"
  proof
    assume "fst p \<in> fst ` set (calibrateAndUndistortTrack E track intr)"
    then obtain q where q: "q \<in> set track" "?ok q" "fst q = fst p"
      unfolding keys by auto
    with is_track_same_key [OF assms p q(1)] show "?ok p" by simp
  next
    assume "?ok p"
    with p show "fst p \<in> fst ` set (calibrateAndUndistortTrack E track intr)"
      unfolding keys by auto
  qed
next
  fix u
  assume u: "\<forall>x. isUndistortable E x (distort_w intr) \<longrightarrow>
                 u x (distort_w intr) = undistort E x (distort_w intr)"
  show "calibrateAndUndistortTrack (E\<lparr>undistort := u\<rparr>) track intr
          = calibrateAndUndistortTrack E track intr"
    unfolding calibrateAndUndistortTrack_pipeline [OF assms]
    using u by (auto simp: undistortIndexedPoint_def calibrateIndexedPoint_def Let_def)
qed

theorem calibrateAndUndistortTrack_keeps_undistortable_witness:
  "is_track raw_track \<and>
   isUndistortable pinhole
     (snd (calibrateIndexedPoint pinhole (7, (2, 0)) (mat_inv pinhole (matrix focal4))))
     (distort_w focal4) \<and>
   7 \<in> fst ` set (calibrateAndUndistortTrack pinhole raw_track focal4)"
proof -
  have m: "(7, (2, 0)) \<in> set raw_track" by (simp add: raw_track_def)
  have ok: "isUndistortable pinhole
     (snd (calibrateIndexedPoint pinhole (7, (2, 0)) (mat_inv pinhole (matrix focal4))))
     (distort_w focal4)"
    unfolding focal4_inverse pinhole_calibrate by (simp add: pinhole_def focal4_def)
  from calibrateAndUndistortTrack_keeps_undistortable [OF is_track_raw_track, of pinhole focal4]
  have "(fst (7::int, (2::real, 0::real)) \<in> fst ` set (calibrateAndUndistortTrack pinhole raw_track focal4)) =
            isUndistortable pinhole (snd (calibrateIndexedPoint pinhole (7, (2, 0)) (mat_inv pinhole (matrix focal4))))
              (distort_w focal4)"
    using m by blast
  with ok is_track_raw_track show ?thesis by simp
qed

section \<open>The ray that is searched\<close>

text \<open>
  C7. With \<open>R\<^sub>0\<close>, \<open>R\<^sub>1\<close>, \<open>R\<^sub>2\<close> the rows of the rotation of the reference pose and
  \<open>w\<close> the calibrated point, the direction \<open>v\<close> that \<open>findExtentOfRay\<close> derives is the
  negative of the cross product of the two rows \<open>R\<^sub>0 - w\<^sub>x R\<^sub>2\<close> and \<open>R\<^sub>1 - w\<^sub>y R\<^sub>2\<close>,
  and it is orthogonal to both (it spans their null space). The search runs on the
  center \<open>c\<close> of the pose and this \<open>v\<close>: in every other view the homogeneous coordinate
  \<open>A + lambda B\<close> it evaluates is the image of the world point \<open>c + lambda v\<close> under the
  pose matrix of that view, \<open>A\<close> itself (\<open>lambda = 0\<close>) being the image of the center,
  and the lower end of the search is not negative.
\<close>

theorem findExtentOfRay_direction_ray:
  "findExtentOfRay_direction w pose =
     neg3 (cross3 (sub3 (fst (rotation pose)) (scale3 (fst w) (snd (snd (rotation pose)))))
                  (sub3 (fst (snd (rotation pose))) (scale3 (snd w) (snd (snd (rotation pose))))))
   \<and> dot3 (sub3 (fst (rotation pose)) (scale3 (fst w) (snd (snd (rotation pose)))))
        (findExtentOfRay_direction w pose) = 0
   \<and> dot3 (sub3 (fst (snd (rotation pose))) (scale3 (snd w) (snd (snd (rotation pose)))))
        (findExtentOfRay_direction w pose) = 0
   \<and> findExtentOfRay E w pose others =
        (case findExtentOfRay_others E (center pose) (findExtentOfRay_direction w pose) others of
           None \<Rightarrow> None
         | Some (Inl e) \<Rightarrow> Some (Inl e)
         | Some (Inr found) \<Rightarrow> Some (Inr ()))
   \<and> (case findExtentOfRay_AB E (center pose) (findExtentOfRay_direction w pose) other of
        (A, B) \<Rightarrow>
          A = mul34 (poseMatrix E (extrinsics other)) (worldPointToHomogeneous (center pose) 1) \<and>
          add3 A (scale3 lambda B) =
            mul34 (poseMatrix E (extrinsics other))
              (worldPointToHomogeneous
                 (add3 (center pose) (scale3 lambda (findExtentOfRay_direction w pose))) 1) \<and>
          (\<forall>m. \<not> (third A > 0 \<and> third B > 0) \<and>
                findExtentOfRay_lambda_min (third A) (third B) = Inr m \<longrightarrow> 0 \<le> m))"
proof -
  have "findExtentOfRay E w pose others =
        (case findExtentOfRay_others E (center pose) (findExtentOfRay_direction w pose) others of
           None \<Rightarrow> None
         | Some (Inl e) \<Rightarrow> Some (Inl e)
         | Some (Inr found) \<Rightarrow> Some (Inr ()))"
    by (simp add: findExtentOfRay_def Let_def)
  moreover have "case findExtentOfRay_AB E (center pose) (findExtentOfRay_direction w pose) other of
        (A, B) \<Rightarrow>
          A = mul34 (poseMatrix E (extrinsics other)) (worldPointToHomogeneous (center pose) 1) \<and>
          add3 A (scale3 lambda B) =
            mul34 (poseMatrix E (extrinsics other))
              (worldPointToHomogeneous
                 (add3 (center pose) (scale3 lambda (findExtentOfRay_direction w pose))) 1) \<and>
          (\<forall>m. \<not> (third A > 0 \<and> third B > 0) \<and>
                findExtentOfRay_lambda_min (third A) (third B) = Inr m \<longrightarrow> 0 \<le> m)"
    unfolding findExtentOfRay_AB_def Let_def prod.case
    using lambda_min_nonneg by (auto simp: mul34_ray)
  ultimately show ?thesis
    using direction_cross [of w pose] cross3_orthogonal
    by (metis (no_types, lifting))
qed

theorem findExtentOfRay_direction_ray_witness:
  "findExtentOfRay_direction (0, 0) reference_pose = (0, 0, -1) \<and>
   findExtentOfRay_AB pinhole (center reference_pose) (0, 0, -1) side_camera
     = ((0, 0, -1), (3/5, 0, -4/5)) \<and>
   add3 (0, 0, -1) (scale3 2 (3/5, 0, -4/5)) =
     mul34 (poseMatrix pinhole (extrinsics side_camera))
       (worldPointToHomogeneous (add3 (center reference_pose) (scale3 2 (0, 0, -1))) 1)"
proof (intro conjI)
  have c: "center reference_pose = (0, 0, 0)" by (simp add: reference_pose_def)
  show "findExtentOfRay_direction (0, 0) reference_pose = (0, 0, -1)"
    by (rule reference_direction)
  show "findExtentOfRay_AB pinhole (center reference_pose) (0, 0, -1) side_camera
     = ((0, 0, -1), (3/5, 0, -4/5))"
    unfolding c by (rule side_AB)
  show "add3 (0, 0, -1) (scale3 2 (3/5, 0, -4/5)) =
     mul34 (poseMatrix pinhole (extrinsics side_camera))
       (worldPointToHomogeneous (add3 (center reference_pose) (scale3 2 (0, 0, -1))) 1)"
    using findExtentOfRay_direction_ray [of "(0, 0)" reference_pose pinhole "[]" side_camera 2,
        THEN conjunct2, THEN conjunct2, THEN conjunct2, THEN conjunct2,
        unfolded reference_direction c side_AB prod.case, THEN conjunct2, THEN conjunct1]
    unfolding c .
qed

section \<open>The ray search: the cases of one view\<close>

text \<open>
  C4. With \<open>A = P (c, 1)\<close> and \<open>B = P (v, 0)\<close> for the pose matrix \<open>P\<close> of the other
  camera: when the third components of \<open>A\<close> and \<open>B\<close> are both positive, the pass for
  that camera ends normally with no parameter found, whatever the external functions
  are, and the loop goes on to the remaining cameras with an empty entry for this one.
\<close>

theorem findExtentOfRay_other_behind:
  assumes "third (mul34 (poseMatrix E (extrinsics other)) (worldPointToHomogeneous c 1)) > 0"
    and "third (mul34 (poseMatrix E (extrinsics other)) (worldPointToHomogeneous v 0)) > 0"
  shows "findExtentOfRay_other E c v other = Some (Inr [])
       \<and> findExtentOfRay_others E c v (other # others) =
           (case findExtentOfRay_others E c v others of
              None \<Rightarrow> None
            | Some (Inl e) \<Rightarrow> Some (Inl e)
            | Some (Inr rest) \<Rightarrow> Some (Inr ([] # rest)))"
proof -
  have "findExtentOfRay_other E c v other = Some (Inr [])"
    using assms by (simp add: findExtentOfRay_other_def findExtentOfRay_AB_def Let_def)
  then show ?thesis by simp
qed

theorem findExtentOfRay_other_behind_witness:
  "third (mul34 (poseMatrix pinhole (extrinsics back_camera)) (worldPointToHomogeneous (0, 0, 0) 1)) > 0 \<and>
   third (mul34 (poseMatrix pinhole (extrinsics back_camera)) (worldPointToHomogeneous (0, 0, -1) 0)) > 0 \<and>
   findExtentOfRay_other pinhole (0, 0, 0) (0, 0, -1) back_camera = Some (Inr []) \<and>
   findExtentOfRay_others pinhole (0, 0, 0) (0, 0, -1) [back_camera] = Some (Inr [[]])"
proof -
  have a: "third (mul34 (poseMatrix pinhole (extrinsics back_camera)) (worldPointToHomogeneous (0, 0, 0) 1)) > 0"
    by (simp add: pinhole_def back_camera_def)
  have b: "third (mul34 (poseMatrix pinhole (extrinsics back_camera)) (worldPointToHomogeneous (0, 0, -1) 0)) > 0"
    by (simp add: pinhole_def back_camera_def)
  from findExtentOfRay_other_behind [OF a b, of "[]"] a b show ?thesis by simp
qed

text \<open>
  C5. For a view that is not skipped, the lower end of the search is 0 when
  \<open>a\<^sub>3 < 0\<close> and the quotient \<open>- a\<^sub>3 / b\<^sub>3\<close> otherwise (a quotient that has a value
  when \<open>b\<^sub>3 \<noteq> 0\<close>), and the anchor and the quantization loop of that view run with
  this lower end.
\<close>

theorem findExtentOfRay_other_lambda_min:
  assumes "findExtentOfRay_AB E c v other = (A, B)"
    and "\<not> (third A > 0 \<and> third B > 0)"
  shows "findExtentOfRay_lambda_min (third A) (third B) =
           (if third A < 0 then Inr 0
            else if third B = 0 then Inl DivisionByZero
            else Inr (- third A / third B))
       \<and> findExtentOfRay_other E c v other =
           (case findExtentOfRay_lambda_min (third A) (third B) of
              Inl e \<Rightarrow> Some (Inl e)
            | Inr lambda_min \<Rightarrow>
                (case findExtentOfRay_anchor E (intrinsics other) A B 1 of
                   None \<Rightarrow> None
                 | Some (Inl e) \<Rightarrow> Some (Inl e)
                 | Some (Inr (x, lambda)) \<Rightarrow>
                     findExtentOfRay_quantize E (intrinsics other) A B 1 lambda_min x lambda []))"
proof -
  have lm: "findExtentOfRay_lambda_min (third A) (third B) =
           (if third A < 0 then Inr 0
            else if third B = 0 then Inl DivisionByZero
            else Inr (- third A / third B))"
    by (simp add: findExtentOfRay_lambda_min_def checked_div_def)
  have "findExtentOfRay_other E c v other =
           (case findExtentOfRay_lambda_min (third A) (third B) of
              Inl e \<Rightarrow> Some (Inl e)
            | Inr lambda_min \<Rightarrow>
                (case findExtentOfRay_anchor E (intrinsics other) A B 1 of
                   None \<Rightarrow> None
                 | Some (Inl e) \<Rightarrow> Some (Inl e)
                 | Some (Inr (x, lambda)) \<Rightarrow>
                     findExtentOfRay_quantize E (intrinsics other) A B 1 lambda_min x lambda []))"
    unfolding findExtentOfRay_other_def assms(1) prod.case Let_def
    using assms(2) by auto
  with lm show ?thesis by simp
qed

theorem findExtentOfRay_other_lambda_min_witness:
  "findExtentOfRay_AB pinhole (0, 0, 0) (0, 0, -1) side_camera = ((0, 0, -1), (3/5, 0, -4/5)) \<and>
   \<not> (third (0, 0, -1 :: real) > 0 \<and> third (3/5, 0, -4/5 :: real) > 0) \<and>
   findExtentOfRay_lambda_min (third (0, 0, -1 :: real)) (third (3/5, 0, -4/5 :: real)) = Inr 0"
proof -
  have n: "\<not> (third (0, 0, -1 :: real) > 0 \<and> third (3/5, 0, -4/5 :: real) > 0)" by simp
  from findExtentOfRay_other_lambda_min [OF side_AB n] side_AB n show ?thesis by simp
qed



text \<open>
  C9. In the quantization loop, when the residual at the lower end is not negative and
  the bisection returns an interval whose upper end equals the upper end \<open>lambda\<close> it
  was given, the loop ends with the failed check \<open>Entered limit cycle\<close>: nothing is
  appended and no list is returned.
\<close>

theorem findExtentOfRay_quantize_limit_cycle:
  assumes "\<not> errorInDistanceFromPoint E x lambda_min A B delta intr < 0"
    and "bisect E (\<lambda>l. errorInDistanceFromPoint E x l A B delta intr) lambda_min lambda
           = Some (a, lambda)"
  shows "findExtentOfRay_quantize E intr A B delta lambda_min x lambda lambdas
           = Some (Inl (CheckFailed ''Entered limit cycle''))"
  using assms by (subst findExtentOfRay_quantize.simps) (simp add: Let_def)

theorem findExtentOfRay_quantize_limit_cycle_witness:
  "\<not> errorInDistanceFromPoint pinhole (-3, 0) 0 (0, 0, -1) (3/5, 0, -4/5) 1 focal4 < 0 \<and>
   bisect pinhole (\<lambda>l. errorInDistanceFromPoint pinhole (-3, 0) l (0, 0, -1) (3/5, 0, -4/5) 1 focal4)
     0 (5/2) = Some (5/2, 5/2) \<and>
   findExtentOfRay_quantize pinhole focal4 (0, 0, -1) (3/5, 0, -4/5) 1 0 (-3, 0) (5/2) []
     = Some (Inl (CheckFailed ''Entered limit cycle''))"
proof -
  have f: "\<not> errorInDistanceFromPoint pinhole (-3, 0) 0 (0, 0, -1) (3/5, 0, -4/5) 1 focal4 < 0"
    by (simp add: focal4_error)
  have b: "bisect pinhole
       (\<lambda>l. errorInDistanceFromPoint pinhole (-3, 0) l (0, 0, -1) (3/5, 0, -4/5) 1 focal4)
       0 (5/2) = Some (5/2, 5/2)"
    by (simp add: pinhole_bisect bisect_halving_def focal4_error)
  from findExtentOfRay_quantize_limit_cycle [OF f b, of "[]"] f b show ?thesis by simp
qed

section \<open>The ray search: order and spacing of the parameters found\<close>

text \<open>
  C3 asks for parameters that increase along the sequence. The search starts from the
  far end of the ray and works towards \<open>lambda_min\<close>: for the side camera it finds
  5/2, then 5/8, then 0.
\<close>

theorem findExtentOfRay_other_increasing_counterexample:
  "findExtentOfRay_other pinhole (0, 0, 0) (0, 0, -1) side_camera = Some (Inr [5/2, 5/8, 0]) \<and>
   \<not> sorted_wrt (<) [5/2, 5/8, 0 :: real]"
  using side_run by simp

text \<open>
  C3, as the code has it. When the bisection returns the upper end of its interval
  inside the bracket it was given (or at an end of that bracket), the parameters a view
  finds are strictly decreasing in the order they are appended: each bracket ends at
  the parameter found before, and the limit-cycle check excludes equality.
\<close>

theorem findExtentOfRay_other_decreasing:
  assumes "bisect_in_bracket E"
    and "findExtentOfRay_other E c v other = Some (Inr lambdas)"
  shows "sorted_wrt (>) lambdas"
proof -
  obtain A B where AB: "findExtentOfRay_AB E c v other = (A, B)"
    by (cases "findExtentOfRay_AB E c v other")
  show ?thesis
  proof (cases "third A > 0 \<and> third B > 0")
    case True
    with assms(2) AB have "lambdas = []"
      by (simp add: findExtentOfRay_other_def Let_def)
    then show ?thesis by simp
  next
    case False
    with assms(2) AB obtain m x lam where
      q: "findExtentOfRay_quantize E (intrinsics other) A B 1 m x lam [] = Some (Inr lambdas)"
      unfolding findExtentOfRay_other_def AB prod.case Let_def
      by (auto split: sum.splits option.splits)
    from quantize_decreasing [OF q assms(1)] show ?thesis by auto
  qed
qed

theorem findExtentOfRay_other_decreasing_witness:
  "bisect_in_bracket pinhole \<and>
   findExtentOfRay_other pinhole (0, 0, 0) (0, 0, -1) side_camera = Some (Inr [5/2, 5/8, 0]) \<and>
   sorted_wrt (>) [5/2, 5/8, 0 :: real]"
  using findExtentOfRay_other_decreasing [OF pinhole_in_bracket side_run]
    pinhole_in_bracket side_run by simp



section \<open>The builder: what becomes of the searches\<close>

text \<open>
  C1 has the builder collect what the ray search finds into the multiview track. For
  the track with the one point \<open>(0, 0)\<close> at frame 0, the search finds three parameters
  in the side view; the multiview track that \<open>findMultiviewTrack\<close> returns has its two
  slots empty.
\<close>

theorem findMultiviewTrack_collects_counterexample:
  "findExtentOfRay_direction (0, 0) reference_pose = (0, 0, -1) \<and>
   center reference_pose = (0, 0, 0) \<and>
   camera side_view = side_camera \<and>
   findExtentOfRay_others pinhole (0, 0, 0) (0, 0, -1) [side_camera]
     = Some (Inr [[5/2, 5/8, 0]]) \<and>
   findMultiviewTrack pinhole [(0, (0, 0))] reference_pose [side_view] = Some (Inr [[], []])"
proof -
  have "findMultiviewTrack_points pinhole reference_pose [side_camera] [(0, (0, 0))]
          = Some (Inr ())"
    using side_findExtentOfRay by simp
  then have "findMultiviewTrack pinhole [(0, (0, 0))] reference_pose [side_view]
          = Some (Inr [[], []])"
    by (simp add: findMultiviewTrack_def Let_def extractCameraFromOtherView_def side_view_def
        MultiviewTrack_def numeral_eq_Suc)
  with reference_direction side_others show ?thesis
    by (simp add: reference_pose_def side_view_def)
qed

text \<open>
  C1, as the code has it. \<open>findMultiviewTrack\<close> runs \<open>findExtentOfRay\<close> on every point
  of the track against the cameras of the other views, in their order, and returns
  when and only when each of these runs returns; what it returns is the multiview track
  as it was built at the start, with one empty slot per view (the other views and the
  reference view), whatever the searches found. \<open>findMultiviewTracks\<close>, when it returns,
  returns one such multiview track per input track.
\<close>

theorem findMultiviewTrack_result:
  "((findMultiviewTrack E track pose other_views = Some (Inr multiview_track)) =
      ((\<forall>p\<in>set track.
          findExtentOfRay E (snd p) pose (map camera other_views) = Some (Inr ())) \<and>
       multiview_track = replicate (length other_views + 1) []))
   \<and> (findMultiviewTracks E track_list pose other_views = Some (Inr multiview_tracks) \<longrightarrow>
        num_views multiview_tracks = length other_views + 1 \<and>
        tracks multiview_tracks =
          replicate (length track_list) (replicate (length other_views + 1) []))"
proof -
  have cams: "map extractCameraFromOtherView other_views = map camera other_views"
    by (simp add: extractCameraFromOtherView_def)
  have one: "(findMultiviewTrack E track pose other_views = Some (Inr multiview_track)) =
      ((\<forall>p\<in>set track.
          findExtentOfRay E (snd p) pose (map camera other_views) = Some (Inr ())) \<and>
       multiview_track = replicate (length other_views + 1) [])"
  proof (cases "findMultiviewTrack_points E pose (map camera other_views) track")
    case None
    with findMultiviewTrack_points_normal [of E pose "map camera other_views" track "()"]
    show ?thesis
      by (simp add: findMultiviewTrack_def Let_def cams)
  next
    case (Some r)
    show ?thesis
    proof (cases r)
      case (Inl e)
      with Some findMultiviewTrack_points_normal [of E pose "map camera other_views" track "()"]
      show ?thesis
        by (simp add: findMultiviewTrack_def Let_def cams)
    next
      case (Inr u)
      with Some findMultiviewTrack_points_normal [of E pose "map camera other_views" track "()"]
      show ?thesis
        by (auto simp: findMultiviewTrack_def Let_def cams MultiviewTrack_def)
    qed
  qed
  have all: "findMultiviewTracks E track_list pose other_views = Some (Inr multiview_tracks) \<longrightarrow>
        num_views multiview_tracks = length other_views + 1 \<and>
        tracks multiview_tracks =
          replicate (length track_list) (replicate (length other_views + 1) [])"
  proof
    assume "findMultiviewTracks E track_list pose other_views = Some (Inr multiview_tracks)"
    then have "findMultiviewTracks_loop E pose other_views
                 (MultiviewTrackList (length other_views + 1)) track_list
               = Some (Inr multiview_tracks)"
      by (simp add: findMultiviewTracks_def Let_def)
    from findMultiviewTracks_loop_result [OF this]
    show "num_views multiview_tracks = length other_views + 1 \<and>
        tracks multiview_tracks =
          replicate (length track_list) (replicate (length other_views + 1) [])"
      by (simp add: MultiviewTrackList_def MultiviewTrack_def)
  qed
  from one all show ?thesis by blast
qed

theorem findMultiviewTrack_result_witness:
  "findExtentOfRay pinhole (0, 0) reference_pose [side_camera] = Some (Inr ()) \<and>
   findMultiviewTrack pinhole [(0, (0, 0))] reference_pose [side_view] = Some (Inr [[], []])"
proof -
  have v: "map camera [side_view] = [side_camera]" by (simp add: side_view_def)
  have "findMultiviewTrack pinhole [(0, (0, 0))] reference_pose [side_view] = Some (Inr [[], []])"
    using findMultiviewTrack_result [of pinhole "[(0, (0, 0))]" reference_pose "[side_view]"
        "[[], []]" "[]" "MultiviewTrackList 2", THEN conjunct1]
      side_findExtentOfRay
    unfolding v by simp
  with side_findExtentOfRay show ?thesis by simp
qed

end
